theory Spec2Isabelle
  imports Main
begin

section \<open>Data model\<close>

text \<open>
  The script \<^verbatim>\<open>src/get_player_stats.py\<close> builds a basketball-reference URL, fetches the
  page, lets pandas read its tables, picks one of them by position, cleans it in place and
  prints it with Rich.  An older copy of the script lies at the top of the repository; it
  has the same \<^verbatim>\<open>create_player_url\<close>, \<^verbatim>\<open>get_tables\<close>, \<^verbatim>\<open>remove_rows\<close> and
  \<^verbatim>\<open>get_player_stats\<close>, and differs in \<^verbatim>\<open>remove_stats\<close> and \<^verbatim>\<open>pprint_df\<close>; those two
  are embedded a second time under the suffix \<open>_legacy\<close>.

  Python strings are \<^typ>\<open>string\<close>: one \<^typ>\<open>char\<close> per character, which covers the
  characters up to code point 255.  Every exception the script can raise is a value of
  \<open>error\<close>, and a function that may raise returns \<open>error + 'a\<close> with the exception on the
  left.
\<close>

datatype error =
    IndexError          \<comment> \<open>\<^verbatim>\<open>seq[i]\<close> out of range\<close>
  | KeyError            \<comment> \<open>\<^verbatim>\<open>d[k]\<close>, \<^verbatim>\<open>df[col]\<close> with a missing key\<close>
  | SystemExit          \<comment> \<open>\<^verbatim>\<open>sys.exit()\<close>\<close>
  | RequestException    \<comment> \<open>raised inside \<^verbatim>\<open>requests.get\<close>\<close>
  | ValueError          \<comment> \<open>raised inside \<^verbatim>\<open>pd.read_html\<close> (no table on the page)\<close>

text \<open>
  A cell of a DataFrame read by \<^verbatim>\<open>pd.read_html\<close> is a string, a number, the float NaN
  (what pandas puts in an empty cell) or \<^verbatim>\<open>None\<close>.  The type \<open>'n\<close> of numbers is left
  open, and what \<^verbatim>\<open>str\<close> prints for a number is a parameter \<open>num_str\<close> of the functions
  that convert cells to text.
\<close>

datatype 'n cell = Str string | Num 'n | NaN | NoneV

text \<open>
  A DataFrame is its column labels and its rows; a row is its index label (pandas drops
  rows by label, and the labels are not renumbered after a drop) and its cells, one per
  column.
\<close>

record 'n dataframe =
  columns :: "string list"
  rows :: "(nat \<times> 'n cell list) list"

definition wf_df :: "'n dataframe \<Rightarrow> bool" where
  "wf_df df \<longleftrightarrow>
     distinct (columns df) \<and> list_all (\<lambda>r. length (snd r) = length (columns df)) (rows df)"

section \<open>Python and pandas primitives the script calls\<close>

fun get_loc :: "string \<Rightarrow> string list \<Rightarrow> nat" where
  "get_loc c [] = 0"
| "get_loc c (x # xs) = (if x = c then 0 else Suc (get_loc c xs))"

text \<open>\<^verbatim>\<open>df[col]\<close>: the cells of the column labelled \<open>col\<close>, top to bottom.\<close>

definition getitem :: "'n dataframe \<Rightarrow> string \<Rightarrow> error + 'n cell list" where
  "getitem df col =
     (if col \<in> set (columns df)
      then Inr (map (\<lambda>r. snd r ! get_loc col (columns df)) (rows df))
      else Inl KeyError)"

text \<open>\<^verbatim>\<open>df.index[mask]\<close>: the labels of the rows at which the boolean mask is true.\<close>

definition index_where :: "'n dataframe \<Rightarrow> bool list \<Rightarrow> nat list" where
  "index_where df msk = map fst (filter snd (zip (map fst (rows df)) msk))"

text \<open>\<^verbatim>\<open>df.drop(labels, inplace=True)\<close>: every row carrying one of the labels goes.\<close>

definition drop_labels :: "nat list \<Rightarrow> 'n dataframe \<Rightarrow> 'n dataframe" where
  "drop_labels labels df = df\<lparr>rows := filter (\<lambda>r. fst r \<notin> set labels) (rows df)\<rparr>"

text \<open>\<^verbatim>\<open>str(e)\<close> on a cell, which is also what \<^verbatim>\<open>astype(str)\<close> does to each element.\<close>

fun py_str :: "('n \<Rightarrow> string) \<Rightarrow> 'n cell \<Rightarrow> string" where
  "py_str num_str (Str s) = s"
| "py_str num_str (Num x) = num_str x"
| "py_str num_str NaN = ''nan''"
| "py_str num_str NoneV = ''None''"

text \<open>\<^verbatim>\<open>pat in s\<close>, and \<^verbatim>\<open>Series.str.contains(pat)\<close> for a pattern without regex operators.\<close>

fun contains :: "string \<Rightarrow> string \<Rightarrow> bool" where
  "contains [] pat = (pat = [])"
| "contains (c # cs) pat = (take (length pat) (c # cs) = pat \<or> contains cs pat)"

fun isna :: "'n cell \<Rightarrow> bool" where
  "isna NaN = True"
| "isna NoneV = True"
| "isna _ = False"

section \<open>Row filter\<close>

text \<open>
  \<^verbatim>\<open>remove_rows(df)\<close> runs three drops in sequence, each on the frame the previous one
  left; the mask of each is computed from that frame.  In the first mask a missing cell
  (NaN or None) is unequal to \<^verbatim>\<open>'NBA'\<close>; in the second, \<^verbatim>\<open>astype(str)\<close> has turned a
  missing cell into the text \<^verbatim>\<open>nan\<close> or \<^verbatim>\<open>None\<close> before the search.
\<close>

definition remove_rows :: "('n \<Rightarrow> string) \<Rightarrow> 'n dataframe \<Rightarrow> error + 'n dataframe" where
  "remove_rows num_str df =
     (case getitem df ''Lg'' of Inl e \<Rightarrow> Inl e | Inr lg \<Rightarrow>
        let df1 = drop_labels (index_where df (map (\<lambda>c. c \<noteq> Str ''NBA'') lg)) df in
        (case getitem df1 ''Season'' of Inl e \<Rightarrow> Inl e | Inr season \<Rightarrow>
           let df2 = drop_labels
                       (index_where df1
                          (map (\<lambda>c. contains (py_str num_str c) ''season'') season)) df1 in
           (case getitem df2 ''Season'' of Inl e \<Rightarrow> Inl e | Inr season2 \<Rightarrow>
              Inr (drop_labels (index_where df2 (map isna season2)) df2))))"

section \<open>Column filter\<close>

text \<open>
  \<^verbatim>\<open>df.drop(columns=col, axis=1, inplace=True)\<close>: every column labelled \<open>col\<close> goes, and
  with it the cell of each row at that position.
\<close>

definition drop_column :: "string \<Rightarrow> 'n dataframe \<Rightarrow> 'n dataframe" where
  "drop_column col df =
     \<lparr>columns = filter (\<lambda>c. c \<noteq> col) (columns df),
      rows = map (\<lambda>r. (fst r, map snd (filter (\<lambda>p. fst p \<noteq> col) (zip (columns df) (snd r)))))
               (rows df)\<rparr>"

text \<open>The loop \<^verbatim>\<open>for col in drop_cols: if col in df.columns: df.drop(...)\<close>.\<close>

fun drop_loop :: "string list \<Rightarrow> 'n dataframe \<Rightarrow> 'n dataframe" where
  "drop_loop [] df = df"
| "drop_loop (col # cols) df =
     drop_loop cols (if col \<in> set (columns df) then drop_column col df else df)"

definition drop_cols :: "string list" where
  "drop_cols = [''2P'', ''3P'', ''DRB'', ''FG'', ''FT'', ''Lg'']"

text \<open>
  \<^verbatim>\<open>remove_stats(df)\<close>: the fixed list, extended by every column label that has
  \<^verbatim>\<open>'Unnamed:'\<close> somewhere in it, then the loop.
\<close>

definition remove_stats :: "'n dataframe \<Rightarrow> 'n dataframe" where
  "remove_stats df =
     drop_loop (drop_cols @ filter (\<lambda>col. contains col ''Unnamed:'') (columns df)) df"

text \<open>The older copy of the script drops another fixed list and nothing else.\<close>

definition drop_cols_legacy :: "string list" where
  "drop_cols_legacy = [''Lg'', ''FG'', ''3PA'', ''FT'', ''DRB'']"

definition remove_stats_legacy :: "'n dataframe \<Rightarrow> 'n dataframe" where
  "remove_stats_legacy df = drop_loop drop_cols_legacy df"

section \<open>URL builder\<close>

definition digit_chars :: string where
  "digit_chars = ''0123456789''"

text \<open>\<^verbatim>\<open>str(n)\<close> for a Python integer.\<close>

fun str_nat :: "nat \<Rightarrow> string" where
  "str_nat n = (if n < 10 then [digit_chars ! n] else str_nat (n div 10) @ [digit_chars ! (n mod 10)])"

declare str_nat.simps [simp del]

definition str_int :: "int \<Rightarrow> string" where
  "str_int n = (if n < 0 then CHR ''-'' # str_nat (nat (- n)) else str_nat (nat n))"

text \<open>\<^verbatim>\<open>str.zfill(s, width)\<close>: zeros on the left up to the width, after a leading sign.\<close>

definition zfill :: "string \<Rightarrow> nat \<Rightarrow> string" where
  "zfill s width =
     (let pad = replicate (width - length s) CHR ''0'' in
      case s of
        [] \<Rightarrow> pad
      | c # cs \<Rightarrow> if c = CHR ''+'' \<or> c = CHR ''-'' then c # pad @ cs else pad @ s)"

definition url :: string where
  "url = ''https://www.basketball-reference.com/players''"

text \<open>
  \<^verbatim>\<open>create_player_url(first_name, last_name, n)\<close>.  \<^verbatim>\<open>last_name[0]\<close> raises IndexError on
  the empty string; the slices \<^verbatim>\<open>[0:5]\<close> and \<^verbatim>\<open>[0:2]\<close> never raise.
\<close>

definition create_player_url :: "string \<Rightarrow> string \<Rightarrow> int \<Rightarrow> error + string" where
  "create_player_url first_name last_name n =
     (case last_name of
        [] \<Rightarrow> Inl IndexError
      | c # _ \<Rightarrow>
          Inr (url @ ''/'' @ [c] @ ''/'' @ take 5 last_name @ take 2 first_name
                 @ zfill (str_int n) 2 @ ''.html''))"

text \<open>
  \<^verbatim>\<open>str.lower\<close> and \<^verbatim>\<open>str.upper\<close> on one character, for the letters A to Z; any other
  character is left as it is.
\<close>

definition upper_chars :: string where
  "upper_chars = ''ABCDEFGHIJKLMNOPQRSTUVWXYZ''"

definition lower_chars :: string where
  "lower_chars = ''abcdefghijklmnopqrstuvwxyz''"

definition lower_char :: "char \<Rightarrow> char" where
  "lower_char c = (case map_of (zip upper_chars lower_chars) c of Some d \<Rightarrow> d | None \<Rightarrow> c)"

definition upper_char :: "char \<Rightarrow> char" where
  "upper_char c = (case map_of (zip lower_chars upper_chars) c of Some d \<Rightarrow> d | None \<Rightarrow> c)"

text \<open>
  The URL pattern as the specification words it: the directory segment is the lowercase
  first character of the last name.
\<close>

definition spec_player_url :: "string \<Rightarrow> string \<Rightarrow> int \<Rightarrow> string" where
  "spec_player_url first_name last_name n =
     url @ ''/'' @ [lower_char (hd last_name)] @ ''/'' @ take 5 last_name @ take 2 first_name
       @ (if n < 10 then CHR ''0'' # str_int n else str_int n) @ ''.html''"

section \<open>Page fetcher\<close>

text \<open>
  What the script does to the outside is kept in a record: the URLs it has requested, in
  order, and what it has written to the terminal.  A rendered Rich table is its title, its
  column headers and its rows, each row with the style it was added with.
\<close>

record rich_table =
  title :: string
  header :: "string list"
  body :: "(string list \<times> string) list"

datatype out_item = Line string | Rendered rich_table

record io =
  sent :: "string list"
  out :: "out_item list"

text \<open>
  The collaborators: \<^verbatim>\<open>requests.get\<close>, which answers a URL with a status code and a
  body or raises, \<^verbatim>\<open>pd.read_html\<close>, which turns a body into a list of tables or raises,
  and \<^verbatim>\<open>str\<close> on a number.
\<close>

record 'h response =
  status_code :: int
  content :: 'h

record ('h, 'n) env =
  requests_get :: "string \<Rightarrow> error + 'h response"
  read_html :: "'h \<Rightarrow> error + 'n dataframe list"
  num_str :: "'n \<Rightarrow> string"

definition get_tables ::
  "('h, 'n) env \<Rightarrow> string \<Rightarrow> io \<Rightarrow> (error + 'n dataframe list) \<times> io" where
  "get_tables E u s =
     (let s1 = s\<lparr>sent := sent s @ [u]\<rparr> in
      case requests_get E u of
        Inl e \<Rightarrow> (Inl e, s1)
      | Inr page \<Rightarrow>
          if status_code page \<noteq> 200
          then (Inl SystemExit,
                s1\<lparr>out := out s1 @ [Line (''ERROR status code: '' @ str_int (status_code page))]\<rparr>)
          else (read_html E (content page), s1))"

section \<open>Table selector and pipeline\<close>

definition table_map :: "(string \<times> nat) list" where
  "table_map = [(''avg'', 0), (''tot'', 2), (''adv'', 4)]"

text \<open>
  The three lines of \<^verbatim>\<open>get_player_stats\<close> that pick the table: \<^verbatim>\<open>table_map[stats]\<close>
  raises KeyError on an unknown key, \<^verbatim>\<open>tables[table_idx]\<close> raises IndexError past the end
  of the list (the index is never negative).
\<close>

definition select_table :: "'a list \<Rightarrow> string \<Rightarrow> bool \<Rightarrow> error + 'a" where
  "select_table tables stats playoffs =
     (case map_of table_map stats of
        None \<Rightarrow> Inl KeyError
      | Some base \<Rightarrow>
          let table_idx = base + (if playoffs then 1 else 0) in
          if table_idx < length tables then Inr (tables ! table_idx) else Inl IndexError)"

definition get_player_stats ::
  "('h, 'n) env \<Rightarrow> string \<Rightarrow> string \<Rightarrow> string \<Rightarrow> bool \<Rightarrow> int \<Rightarrow> io
     \<Rightarrow> (error + 'n dataframe) \<times> io" where
  "get_player_stats E first_name last_name stats playoffs n s =
     (case create_player_url first_name last_name n of
        Inl e \<Rightarrow> (Inl e, s)
      | Inr u \<Rightarrow>
          (case get_tables E u s of
             (Inl e, s1) \<Rightarrow> (Inl e, s1)
           | (Inr tables, s1) \<Rightarrow>
               (case select_table tables stats playoffs of
                  Inl e \<Rightarrow> (Inl e, s1)
                | Inr df \<Rightarrow>
                    (case remove_rows (num_str E) df of
                       Inl e \<Rightarrow> (Inl e, s1)
                     | Inr df1 \<Rightarrow> (Inr (remove_stats df1), s1)))))"

section \<open>Renderer\<close>

text \<open>\<^verbatim>\<open>str.capitalize\<close>: the first character in upper case, the others in lower case.\<close>

definition capitalize :: "string \<Rightarrow> string" where
  "capitalize s = (case s of [] \<Rightarrow> [] | c # cs \<Rightarrow> upper_char c # map lower_char cs)"

definition add_row :: "string list \<Rightarrow> string \<Rightarrow> rich_table \<Rightarrow> rich_table" where
  "add_row row style t = t\<lparr>body := body t @ [(row, style)]\<rparr>"

text \<open>
  The loop \<^verbatim>\<open>for i, row in enumerate(rows)\<close> of \<^verbatim>\<open>pprint_df\<close>; \<^verbatim>\<open>row[0]\<close> raises
  IndexError on a row without cells.
\<close>

fun add_rows :: "nat \<Rightarrow> string list list \<Rightarrow> rich_table \<Rightarrow> error + rich_table" where
  "add_rows i [] t = Inr t"
| "add_rows i (row # rest) t =
     (case row of
        [] \<Rightarrow> Inl IndexError
      | c # _ \<Rightarrow>
          add_rows (Suc i) rest
            (add_row row
               (if c = ''Career'' then ''steel_blue1''
                else if i mod 2 = 0 then ''bright_cyan'' else ''light_cyan1'') t))"

definition pprint_title :: "string \<Rightarrow> string \<Rightarrow> string \<Rightarrow> bool \<Rightarrow> string" where
  "pprint_title first_name last_name stats playoffs =
     capitalize first_name @ '' '' @ capitalize last_name @ '' ''
       @ (if \<not> playoffs then ''Regular Season'' else ''Playoffs'') @ '' '' @ stats"

definition pprint_df ::
  "('n \<Rightarrow> string) \<Rightarrow> 'n dataframe \<Rightarrow> string \<Rightarrow> string \<Rightarrow> string \<Rightarrow> bool \<Rightarrow> io
     \<Rightarrow> (error + unit) \<times> io" where
  "pprint_df nstr df first_name last_name stats playoffs s =
     (let table = \<lparr>title = pprint_title first_name last_name stats playoffs,
                   header = columns df, body = []\<rparr>;
          rws = map (\<lambda>r. map (py_str nstr) (snd r)) (rows df)
      in case add_rows 0 rws table of
           Inl e \<Rightarrow> (Inl e, s)
         | Inr table' \<Rightarrow> (Inr (), s\<lparr>out := out s @ [Rendered table']\<rparr>))"

text \<open>The older copy of the script adds every row with one style.\<close>

definition pprint_df_legacy ::
  "('n \<Rightarrow> string) \<Rightarrow> 'n dataframe \<Rightarrow> string \<Rightarrow> string \<Rightarrow> string \<Rightarrow> bool \<Rightarrow> io
     \<Rightarrow> (error + unit) \<times> io" where
  "pprint_df_legacy nstr df first_name last_name stats playoffs s =
     (let table = \<lparr>title = pprint_title first_name last_name stats playoffs,
                   header = columns df, body = []\<rparr>;
          rws = map (\<lambda>r. map (py_str nstr) (snd r)) (rows df)
      in (Inr (), s\<lparr>out := out s @ [Rendered (fold (\<lambda>row. add_row row ''bright_cyan'') rws table)]\<rparr>))"

text \<open>\<^verbatim>\<open>main()\<close>, from the parsed arguments on.\<close>

definition main ::
  "('h, 'n) env \<Rightarrow> string \<Rightarrow> string \<Rightarrow> string \<Rightarrow> bool \<Rightarrow> int \<Rightarrow> io \<Rightarrow> (error + unit) \<times> io" where
  "main E first_name last_name stats playoffs n s =
     (case get_player_stats E first_name last_name stats playoffs n s of
        (Inl e, s1) \<Rightarrow> (Inl e, s1)
      | (Inr df, s1) \<Rightarrow> pprint_df (num_str E) df first_name last_name stats playoffs s1)"

section \<open>Notions used in the proofs\<close>

text \<open>
  One drop of \<^verbatim>\<open>remove_rows\<close>, seen from the rows: the labels of the rows that satisfy
  \<open>Q\<close> are collected and every row with one of these labels goes.
\<close>

definition drop_where :: "(nat \<times> 'n cell list \<Rightarrow> bool) \<Rightarrow> 'n dataframe \<Rightarrow> 'n dataframe" where
  "drop_where Q df = drop_labels (map fst (filter Q (rows df))) df"

text \<open>The three masks of \<^verbatim>\<open>remove_rows\<close> as predicates on a row, given the column labels.\<close>

definition not_nba :: "string list \<Rightarrow> nat \<times> 'n cell list \<Rightarrow> bool" where
  "not_nba cols r \<longleftrightarrow> snd r ! get_loc ''Lg'' cols \<noteq> Str ''NBA''"

definition has_season :: "('n \<Rightarrow> string) \<Rightarrow> string list \<Rightarrow> nat \<times> 'n cell list \<Rightarrow> bool" where
  "has_season nstr cols r \<longleftrightarrow>
     contains (py_str nstr (snd r ! get_loc ''Season'' cols)) ''season''"

definition season_na :: "string list \<Rightarrow> nat \<times> 'n cell list \<Rightarrow> bool" where
  "season_na cols r \<longleftrightarrow> isna (snd r ! get_loc ''Season'' cols)"

text \<open>The columns \<^verbatim>\<open>remove_stats\<close> is after: the fixed list and the placeholder labels.\<close>

definition dropped :: "string \<Rightarrow> bool" where
  "dropped c \<longleftrightarrow> c \<in> set drop_cols \<or> contains c ''Unnamed:''"

text \<open>The style \<^verbatim>\<open>pprint_df\<close> gives the row at position \<open>i\<close>, as the loop computes it.\<close>

definition row_style :: "nat \<Rightarrow> string list \<Rightarrow> string" where
  "row_style i row =
     (if hd row = ''Career'' then ''steel_blue1''
      else if i mod 2 = 0 then ''bright_cyan'' else ''light_cyan1'')"

section \<open>Example inputs\<close>

definition five_rows :: "'n dataframe" where
  "five_rows =
     \<lparr>columns = [''Lg'', ''Season''],
      rows = [(0, [Str ''NBA'', Str ''2020-21'']),
              (1, [Str ''Spain'', Str ''2019-20'']),
              (2, [Str ''NBA'', Str ''2-team totals'']),
              (3, [NoneV, NoneV]),
              (4, [Str ''NBA'', Str ''Career''])]\<rparr>"

text \<open>The output the specification states for \<open>five_rows\<close>, and the one the script gives.\<close>

definition two_rows :: "'n dataframe" where
  "two_rows =
     \<lparr>columns = [''Lg'', ''Season''],
      rows = [(0, [Str ''NBA'', Str ''2020-21'']),
              (4, [Str ''NBA'', Str ''Career''])]\<rparr>"

definition three_rows :: "'n dataframe" where
  "three_rows =
     \<lparr>columns = [''Lg'', ''Season''],
      rows = [(0, [Str ''NBA'', Str ''2020-21'']),
              (2, [Str ''NBA'', Str ''2-team totals'']),
              (4, [Str ''NBA'', Str ''Career''])]\<rparr>"

text \<open>A table with a season row that has no league.\<close>

definition no_league_row :: "int dataframe" where
  "no_league_row =
     \<lparr>columns = [''Season'', ''Lg''],
      rows = [(0, [Str ''2018-19'', Str ''NBA'']),
              (1, [Str ''2019-20'', NaN]),
              (2, [Str ''Career'', Str ''NBA''])]\<rparr>"

text \<open>
  A server that answers every request with the given status code, and a table reader
  that finds the given tables on every page.
\<close>

definition fixed_env :: "int \<Rightarrow> int dataframe list \<Rightarrow> (unit, int) env" where
  "fixed_env code tables =
     \<lparr>requests_get = (\<lambda>u. Inr \<lparr>status_code = code, content = ()\<rparr>),
      read_html = (\<lambda>h. Inr tables),
      num_str = str_int\<rparr>"

definition io0 :: io where
  "io0 = \<lparr>sent = [], out = []\<rparr>"

definition wu_url :: string where
  "wu_url = ''https://www.basketball-reference.com/players/w/wual01.html''"

text \<open>A table with the seven columns of the column-filter example, and one with no
  column the column filter is after.\<close>

definition seven_columns :: "int dataframe" where
  "seven_columns =
     \<lparr>columns = [''Season'', ''Lg'', ''FG'', ''FGA'', ''2P'', ''2PA'', ''Unnamed: 12''],
      rows = [(0, [Str ''2020-21'', Str ''NBA'', Num 7, Num 15, Num 5, Num 9, NaN]),
              (1, [Str ''Career'', Str ''NBA'', Num 6, Num 14, Num 4, Num 8, NaN])]\<rparr>"

definition plain_columns :: "int dataframe" where
  "plain_columns =
     \<lparr>columns = [''Season'', ''FGA''],
      rows = [(0, [Str ''2020-21'', Num 15]), (1, [Str ''Career'', Num 14])]\<rparr>"

text \<open>A cleaned table of three seasons and the career row.\<close>

definition four_rows :: "int dataframe" where
  "four_rows =
     \<lparr>columns = [''Season'', ''FGA''],
      rows = [(0, [Str ''2018-19'', Num 11]),
              (1, [Str ''2019-20'', Num 12]),
              (2, [Str ''2020-21'', Num 15]),
              (4, [Str ''Career'', Num 13])]\<rparr>"

text \<open>
  The columns the column filter is after as the specification words them: the fixed list,
  and every label that begins with the prefix \<^verbatim>\<open>Unnamed:\<close>.
\<close>

definition spec_target :: "string \<Rightarrow> bool" where
  "spec_target c \<longleftrightarrow> c \<in> set drop_cols \<or> take 8 c = ''Unnamed:''"

text \<open>A table with a label that has \<^verbatim>\<open>Unnamed:\<close> inside it, not at its start.\<close>

definition infix_columns :: "int dataframe" where
  "infix_columns =
     \<lparr>columns = [''Season'', ''xUnnamed: 3y'', ''PTS''],
      rows = [(0, [Str ''2020-21'', Num 1, Num 25]), (1, [Str ''Career'', Num 2, Num 24])]\<rparr>"

section \<open>The row filter as three filters\<close>

lemma mask_labels: "map fst (filter snd (zip (map fst xs) (map Q xs))) = map fst (filter Q xs)"
  by (induction xs) auto

lemma index_where_map: "index_where df (map Q (rows df)) = map fst (filter Q (rows df))"
  by (simp add: index_where_def mask_labels)

lemma columns_drop_where [simp]: "columns (drop_where Q df) = columns df"
  by (simp add: drop_where_def drop_labels_def)

lemma rows_drop_where:
  "rows (drop_where Q df) = filter (\<lambda>r. fst r \<notin> fst ` {x \<in> set (rows df). Q x}) (rows df)"
  by (simp add: drop_where_def drop_labels_def)

lemma drop_where_sub: "set (rows (drop_where Q df)) \<subseteq> set (rows df)"
  by (auto simp: rows_drop_where)

lemma drop_where_clean: "r \<in> set (rows (drop_where Q df)) \<Longrightarrow> \<not> Q r"
  by (auto simp: rows_drop_where)

lemma drop_where_gone: "r \<in> set (rows df) \<Longrightarrow> Q r \<Longrightarrow> fst r \<notin> fst ` set (rows (drop_where Q df))"
  by (auto simp: rows_drop_where)

lemma drop_where_noop: "\<forall>r \<in> set (rows df). \<not> Q r \<Longrightarrow> drop_where Q df = df"
proof -
  assume a: "\<forall>r \<in> set (rows df). \<not> Q r"
  then have "filter Q (rows df) = []" by (simp add: filter_empty_conv)
  then show ?thesis by (simp add: drop_where_def drop_labels_def)
qed

lemma drop_mask:
  "drop_labels (index_where d (map P (map g (rows d)))) d = drop_where (\<lambda>r. P (g r)) d"
  by (simp add: drop_where_def index_where_def mask_labels comp_def)

lemma remove_rows_eq:
  assumes lg: "''Lg'' \<in> set (columns df)" and se: "''Season'' \<in> set (columns df)"
  shows "remove_rows nstr df =
           Inr (drop_where (season_na (columns df))
                 (drop_where (has_season nstr (columns df))
                   (drop_where (not_nba (columns df)) df)))"
proof -
  let ?c = "columns df"
  let ?d1 = "drop_where (not_nba ?c) df"
  let ?d2 = "drop_where (has_season nstr ?c) ?d1"
  have g1: "getitem df ''Lg'' = Inr (map (\<lambda>r. snd r ! get_loc ''Lg'' ?c) (rows df))"
    using lg by (simp add: getitem_def)
  have e1: "drop_labels (index_where df (map (\<lambda>c. c \<noteq> Str ''NBA'')
              (map (\<lambda>r. snd r ! get_loc ''Lg'' ?c) (rows df)))) df = ?d1"
    unfolding not_nba_def[abs_def] by (rule drop_mask)
  have g2: "getitem ?d1 ''Season'' = Inr (map (\<lambda>r. snd r ! get_loc ''Season'' ?c) (rows ?d1))"
    using se by (simp add: getitem_def)
  have e2: "drop_labels (index_where ?d1 (map (\<lambda>c. contains (py_str nstr c) ''season'')
              (map (\<lambda>r. snd r ! get_loc ''Season'' ?c) (rows ?d1)))) ?d1 = ?d2"
    unfolding has_season_def[abs_def] by (rule drop_mask)
  have g3: "getitem ?d2 ''Season'' = Inr (map (\<lambda>r. snd r ! get_loc ''Season'' ?c) (rows ?d2))"
    using se by (simp add: getitem_def)
  have e3: "drop_labels (index_where ?d2 (map isna
              (map (\<lambda>r. snd r ! get_loc ''Season'' ?c) (rows ?d2)))) ?d2
            = drop_where (season_na ?c) ?d2"
    unfolding season_na_def[abs_def] by (rule drop_mask)
  show ?thesis
    unfolding remove_rows_def
    by (simp only: g1 sum.case Let_def e1 g2 e2 g3 e3)
qed

section \<open>Row filter: the five-row table\<close>

text \<open>
  C1 (as amended).  On the five-row table of the specification (its column League is the
  script's \<^verbatim>\<open>Lg\<close>) the row filter removes the Spain row and the empty row and keeps
  three rows: the 2020-21 season, the row whose Season is "2-team totals" and the Career
  row.  The text "2-team totals" does not contain "season", so the second drop leaves it.
\<close>

theorem remove_rows_five_rows: "remove_rows nstr five_rows = Inr three_rows"
  by (simp add: remove_rows_def five_rows_def three_rows_def getitem_def index_where_def
        drop_labels_def)

text \<open>
  C1 as stated fails: the output is not the two-row table.
\<close>

theorem remove_rows_five_rows_counterexample:
  "remove_rows str_int (five_rows :: int dataframe) \<noteq> Inr two_rows"
  by (simp add: remove_rows_def five_rows_def two_rows_def getitem_def index_where_def
        drop_labels_def)

section \<open>Row filter: idempotence\<close>

text \<open>
  C6.  On every table that has the columns \<^verbatim>\<open>Lg\<close> and \<^verbatim>\<open>Season\<close> the row filter
  returns a table, and the row filter applied to that table returns it unchanged.
\<close>

theorem remove_rows_idempotent:
  assumes "''Lg'' \<in> set (columns df)" and "''Season'' \<in> set (columns df)"
  shows "\<exists>df'. remove_rows nstr df = Inr df' \<and> remove_rows nstr df' = Inr df'"
proof -
  let ?c = "columns df"
  let ?d1 = "drop_where (not_nba ?c) df"
  let ?d2 = "drop_where (has_season nstr ?c) ?d1"
  let ?d3 = "drop_where (season_na ?c) ?d2"
  have once: "remove_rows nstr df = Inr ?d3" using assms by (rule remove_rows_eq)
  have sub32: "set (rows ?d3) \<subseteq> set (rows ?d2)" by (rule drop_where_sub)
  have sub21: "set (rows ?d2) \<subseteq> set (rows ?d1)" by (rule drop_where_sub)
  have n1: "\<forall>r \<in> set (rows ?d3). \<not> not_nba ?c r"
    using sub32 sub21 drop_where_clean[of _ "not_nba ?c" df] by blast
  have n2: "\<forall>r \<in> set (rows ?d3). \<not> has_season nstr ?c r"
    using sub32 drop_where_clean[of _ "has_season nstr ?c" ?d1] by blast
  have n3: "\<forall>r \<in> set (rows ?d3). \<not> season_na ?c r"
    using drop_where_clean[of _ "season_na ?c" ?d2] by blast
  have t: "remove_rows nstr ?d3 =
          Inr (drop_where (season_na (columns ?d3))
                (drop_where (has_season nstr (columns ?d3))
                  (drop_where (not_nba (columns ?d3)) ?d3)))"
    by (rule remove_rows_eq) (simp_all only: columns_drop_where assms)
  have z1: "drop_where (not_nba ?c) ?d3 = ?d3" using n1 by (rule drop_where_noop)
  have z2: "drop_where (has_season nstr ?c) ?d3 = ?d3" using n2 by (rule drop_where_noop)
  have z3: "drop_where (season_na ?c) ?d3 = ?d3" using n3 by (rule drop_where_noop)
  from t have "remove_rows nstr ?d3 = Inr ?d3"
    by (simp only: columns_drop_where z1 z2 z3)
  with once show ?thesis by blast
qed


theorem remove_rows_idempotent_witness:
  "''Lg'' \<in> set (columns (five_rows :: int dataframe)) \<and>
   ''Season'' \<in> set (columns (five_rows :: int dataframe)) \<and>
   remove_rows str_int (five_rows :: int dataframe) = Inr three_rows \<and>
   remove_rows str_int (three_rows :: int dataframe) = Inr three_rows"
proof -
  have l: "''Lg'' \<in> set (columns (five_rows :: int dataframe))" by (simp add: five_rows_def)
  have s: "''Season'' \<in> set (columns (five_rows :: int dataframe))" by (simp add: five_rows_def)
  have r: "remove_rows str_int (five_rows :: int dataframe) = Inr three_rows"
    by (simp add: remove_rows_def five_rows_def three_rows_def getitem_def index_where_def
        drop_labels_def)
  from remove_rows_idempotent[OF l s, of str_int] r
  have "remove_rows str_int (three_rows :: int dataframe) = Inr three_rows" by auto
  with l s r show ?thesis by blast
qed

section \<open>Row filter: rows without a league\<close>

text \<open>
  C10.  On every table that has the columns \<^verbatim>\<open>Lg\<close> and \<^verbatim>\<open>Season\<close>, a row whose
  \<^verbatim>\<open>Lg\<close> cell is missing (NaN or None) is selected by the first mask of the row filter,
  \<^verbatim>\<open>df['Lg'] != 'NBA'\<close>, whatever its Season cell holds, and the table the row filter
  returns has no row with its label.
\<close>

theorem remove_rows_missing_league:
  assumes lg: "''Lg'' \<in> set (columns df)" and se: "''Season'' \<in> set (columns df)"
    and r: "(l, cs) \<in> set (rows df)"
    and na: "isna (cs ! get_loc ''Lg'' (columns df))"
  shows "(\<exists>lg. getitem df ''Lg'' = Inr lg \<and>
            l \<in> set (index_where df (map (\<lambda>c. c \<noteq> Str ''NBA'') lg))) \<and>
         (\<exists>df'. remove_rows nstr df = Inr df' \<and> l \<notin> fst ` set (rows df') \<and>
            (l, cs) \<notin> set (rows df'))"
proof -
  let ?c = "columns df"
  let ?g = "\<lambda>r :: nat \<times> 'a cell list. snd r ! get_loc ''Lg'' ?c"
  let ?d1 = "drop_where (not_nba ?c) df"
  let ?d2 = "drop_where (has_season nstr ?c) ?d1"
  let ?d3 = "drop_where (season_na ?c) ?d2"
  have q: "not_nba ?c (l, cs)"
    using na by (cases "cs ! get_loc ''Lg'' ?c") (simp_all add: not_nba_def)
  have g: "getitem df ''Lg'' = Inr (map ?g (rows df))"
    using lg by (simp add: getitem_def)
  have "index_where df (map (\<lambda>c. c \<noteq> Str ''NBA'') (map ?g (rows df)))
          = map fst (filter (not_nba ?c) (rows df))"
    by (simp add: index_where_def mask_labels not_nba_def[abs_def] comp_def)
  moreover have "l \<in> set (map fst (filter (not_nba ?c) (rows df)))"
    using r q by force
  ultimately have first: "\<exists>lg. getitem df ''Lg'' = Inr lg \<and>
           l \<in> set (index_where df (map (\<lambda>c. c \<noteq> Str ''NBA'') lg))"
    using g by simp
  have once: "remove_rows nstr df = Inr ?d3" using lg se by (rule remove_rows_eq)
  have "fst (l, cs) \<notin> fst ` set (rows ?d1)" using r q by (rule drop_where_gone)
  moreover have "set (rows ?d3) \<subseteq> set (rows ?d1)"
    using drop_where_sub[of "season_na ?c" ?d2] drop_where_sub[of "has_season nstr ?c" ?d1]
    by blast
  ultimately have "l \<notin> fst ` set (rows ?d3)" by auto
  then have "l \<notin> fst ` set (rows ?d3) \<and> (l, cs) \<notin> set (rows ?d3)" by force
  with once have "\<exists>df'. remove_rows nstr df = Inr df' \<and> l \<notin> fst ` set (rows df') \<and>
           (l, cs) \<notin> set (rows df')" by blast
  with first show ?thesis by blast
qed

theorem remove_rows_missing_league_witness:
  "''Lg'' \<in> set (columns no_league_row) \<and> ''Season'' \<in> set (columns no_league_row) \<and>
   (1, [Str ''2019-20'', NaN]) \<in> set (rows no_league_row) \<and>
   isna ([Str ''2019-20'', NaN :: int cell] ! get_loc ''Lg'' (columns no_league_row)) \<and>
   \<not> isna ([Str ''2019-20'', NaN :: int cell] ! get_loc ''Season'' (columns no_league_row)) \<and>
   (\<exists>df'. remove_rows str_int no_league_row = Inr df' \<and> 1 \<notin> fst ` set (rows df'))"
proof -
  have l: "''Lg'' \<in> set (columns no_league_row)" by (simp add: no_league_row_def)
  have s: "''Season'' \<in> set (columns no_league_row)" by (simp add: no_league_row_def)
  have r: "(1, [Str ''2019-20'', NaN]) \<in> set (rows no_league_row)"
    by (simp add: no_league_row_def)
  have n: "isna ([Str ''2019-20'', NaN :: int cell] ! get_loc ''Lg'' (columns no_league_row))"
    by (simp add: no_league_row_def)
  have m: "\<not> isna ([Str ''2019-20'', NaN :: int cell] ! get_loc ''Season'' (columns no_league_row))"
    by (simp add: no_league_row_def)
  from remove_rows_missing_league[OF l s r n, of str_int]
  have "\<exists>df'. remove_rows str_int no_league_row = Inr df' \<and> 1 \<notin> fst ` set (rows df')"
    by blast
  with l s r n m show ?thesis by blast
qed

section \<open>URL builder: the pattern\<close>

lemma str_nat_small: "n < 10 \<Longrightarrow> str_nat n = [digit_chars ! n]"
  by (simp add: str_nat.simps)

lemma str_nat_nonempty: "str_nat n \<noteq> []"
  by (subst str_nat.simps) simp

lemma str_nat_long: "10 \<le> n \<Longrightarrow> 2 \<le> length (str_nat n)"
proof -
  assume a: "10 \<le> n"
  have "str_nat n = str_nat (n div 10) @ [digit_chars ! (n mod 10)]"
    using a by (subst str_nat.simps) simp
  moreover have "1 \<le> length (str_nat (n div 10))"
    using str_nat_nonempty[of "n div 10"] by (cases "str_nat (n div 10)") simp_all
  ultimately show ?thesis by simp
qed

lemma digit_not_sign:
  "n < 10 \<Longrightarrow> digit_chars ! n \<noteq> CHR ''+'' \<and> digit_chars ! n \<noteq> CHR ''-''"
proof -
  assume "n < 10"
  then have "n \<in> {0, 1, 2, 3, 4, 5, 6, 7, 8, 9}" by auto
  then show ?thesis by (auto simp: digit_chars_def)
qed

lemma zfill_long: "2 \<le> length s \<Longrightarrow> zfill s 2 = s"
  by (cases s) (simp_all add: zfill_def)

lemma zfill_str_int:
  assumes "0 \<le> n"
  shows "zfill (str_int n) 2 = (if n < 10 then CHR ''0'' # str_int n else str_int n)"
proof (cases "n < 10")
  case True
  then have "nat n < 10" using assms by simp
  then show ?thesis using True assms digit_not_sign[of "nat n"]
    by (simp add: str_int_def str_nat_small zfill_def)
next
  case False
  then have "10 \<le> nat n" by simp
  then have "2 \<le> length (str_int n)" using False by (simp add: str_int_def str_nat_long)
  then show ?thesis using False by (simp add: zfill_long)
qed

text \<open>
  C3 (as amended).  For every last name that is not empty and every index \<open>n \<ge> 0\<close>
  (any first name), the URL builder does not fail and returns
  \<^verbatim>\<open>.../players/{L}/{first 5 of last name}{first 2 of first name}{n padded to 2 digits}.html\<close>,
  where \<open>{L}\<close> is the first character of the last name as it was passed; a name shorter
  than the slice is used whole.  \<open>{L}\<close> is the lowercase first character exactly when the
  last name already starts with a character that lowering leaves unchanged, and then the
  result is the URL the specification describes.
\<close>

theorem create_player_url_pattern:
  assumes "last_name \<noteq> []" and "0 \<le> n"
  shows "create_player_url first_name last_name n =
           Inr (url @ ''/'' @ [hd last_name] @ ''/'' @ take 5 last_name @ take 2 first_name
                  @ (if n < 10 then CHR ''0'' # str_int n else str_int n) @ ''.html'') \<and>
         (lower_char (hd last_name) = hd last_name \<longrightarrow>
            create_player_url first_name last_name n
              = Inr (spec_player_url first_name last_name n))"
  using assms
  by (cases last_name) (simp_all add: create_player_url_def spec_player_url_def zfill_str_int)

theorem create_player_url_pattern_witness:
  "''wu'' \<noteq> [] \<and> (0::int) \<le> 3 \<and> lower_char (hd ''wu'') = hd ''wu'' \<and>
   create_player_url ''al'' ''wu'' 3
     = Inr ''https://www.basketball-reference.com/players/w/wual03.html'' \<and>
   create_player_url ''al'' ''wu'' 3 = Inr (spec_player_url ''al'' ''wu'' 3)"
proof -
  have a: "''wu'' \<noteq> []" by simp
  have b: "(0::int) \<le> 3" by simp
  have c: "lower_char (hd ''wu'') = hd ''wu''"
    by (simp add: lower_char_def upper_chars_def lower_chars_def)
  have d: "str_int 3 = ''3''"
    by (simp add: str_int_def str_nat.simps digit_chars_def)
  note t = create_player_url_pattern[OF a b, of "''al''"]
  from t c have e: "create_player_url ''al'' ''wu'' 3 = Inr (spec_player_url ''al'' ''wu'' 3)"
    by blast
  from t have "create_player_url ''al'' ''wu'' 3
     = Inr ''https://www.basketball-reference.com/players/w/wual03.html''"
    by (simp add: d url_def)
  with a b c e show ?thesis by blast
qed

text \<open>
  C3 as stated fails on a capitalised last name: the directory segment is \<open>J\<close>, not
  \<open>j\<close>.
\<close>

theorem create_player_url_counterexample:
  "create_player_url ''LeBron'' ''James'' 1
     = Inr ''https://www.basketball-reference.com/players/J/JamesLe01.html'' \<and>
   create_player_url ''LeBron'' ''James'' 1 \<noteq> Inr (spec_player_url ''LeBron'' ''James'' 1)"
  by (simp add: create_player_url_def spec_player_url_def url_def zfill_def str_int_def
        str_nat.simps digit_chars_def lower_char_def upper_chars_def lower_chars_def)

section \<open>Table selector: the position\<close>

lemma table_map_lookup:
  "(stats, base) \<in> {(''avg'', 0), (''tot'', 2), (''adv'', 4)} \<Longrightarrow> map_of table_map stats = Some base"
  by (auto simp: table_map_def)

lemma select_table_base:
  "map_of table_map stats = Some base \<Longrightarrow>
   select_table tables stats playoffs =
     (if base + (if playoffs then 1 else 0) < length tables
      then Inr (tables ! (base + (if playoffs then 1 else 0))) else Inl IndexError)"
  by (simp add: select_table_def Let_def)

text \<open>
  C2.  For each of the three stat categories (\<^verbatim>\<open>avg\<close>, \<^verbatim>\<open>tot\<close>, \<^verbatim>\<open>adv\<close> with base 0,
  2, 4) and either season type, the table selector returns the table at position base + 1
  for the playoffs and at position base otherwise, whenever the list has that position.
\<close>

theorem select_table_position:
  assumes "(stats, base) \<in> {(''avg'', 0), (''tot'', 2), (''adv'', 4)}"
    and "base + (if playoffs then 1 else 0) < length tables"
  shows "select_table tables stats playoffs
           = Inr (tables ! (base + (if playoffs then 1 else 0)))"
  using assms(2) select_table_base[OF table_map_lookup[OF assms(1)], of tables playoffs]
  by simp

theorem select_table_position_witness:
  "select_table [''T0'', ''T1'', ''T2'', ''T3'', ''T4'', ''T5''] ''avg'' False = Inr ''T0'' \<and>
   select_table [''T0'', ''T1'', ''T2'', ''T3'', ''T4'', ''T5''] ''avg'' True = Inr ''T1'' \<and>
   select_table [''T0'', ''T1'', ''T2'', ''T3'', ''T4'', ''T5''] ''tot'' False = Inr ''T2'' \<and>
   select_table [''T0'', ''T1'', ''T2'', ''T3'', ''T4'', ''T5''] ''adv'' True = Inr ''T5''"
proof -
  let ?ts = "[''T0'', ''T1'', ''T2'', ''T3'', ''T4'', ''T5'']"
  have "select_table ?ts ''avg'' False = Inr ''T0''"
    using select_table_position[of "''avg''" 0 False ?ts] by simp
  moreover have "select_table ?ts ''avg'' True = Inr ''T1''"
    using select_table_position[of "''avg''" 0 True ?ts] by simp
  moreover have "select_table ?ts ''tot'' False = Inr ''T2''"
    using select_table_position[of "''tot''" 2 False ?ts] by simp
  moreover have "select_table ?ts ''adv'' True = Inr ''T5''"
    using select_table_position[of "''adv''" 4 True ?ts] by simp
  ultimately show ?thesis by blast
qed

section \<open>Page fetcher: status codes\<close>

lemma main_get_tables_error:
  assumes "create_player_url first_name last_name n = Inr u"
    and "get_tables E u s = (Inl e, s')"
  shows "main E first_name last_name stats playoffs n s = (Inl e, s')"
  using assms by (simp add: main_def get_player_stats_def)

text \<open>
  C8.  When the server answers the one request with a status code other than 200,
  \<^verbatim>\<open>get_tables\<close> prints the line "ERROR status code: " followed by the code and exits;
  the run has sent exactly that one request, has printed nothing else, and \<^verbatim>\<open>main\<close>
  ends with the same exit.  When the code is 200, \<^verbatim>\<open>get_tables\<close> prints nothing and
  returns what \<^verbatim>\<open>pd.read_html\<close> makes of the body.
\<close>

theorem get_tables_status:
  assumes "requests_get E u = Inr page"
  shows "(status_code page \<noteq> 200 \<longrightarrow>
            get_tables E u s
              = (Inl SystemExit,
                 s\<lparr>sent := sent s @ [u],
                   out := out s @ [Line (''ERROR status code: '' @ str_int (status_code page))]\<rparr>)) \<and>
         (status_code page \<noteq> 200 \<and> create_player_url first_name last_name n = Inr u \<longrightarrow>
            main E first_name last_name stats playoffs n s
              = (Inl SystemExit,
                 s\<lparr>sent := sent s @ [u],
                   out := out s @ [Line (''ERROR status code: '' @ str_int (status_code page))]\<rparr>)) \<and>
         (status_code page = 200 \<longrightarrow>
            get_tables E u s = (read_html E (content page), s\<lparr>sent := sent s @ [u]\<rparr>))"
proof -
  have a: "status_code page \<noteq> 200 \<Longrightarrow>
            get_tables E u s
              = (Inl SystemExit,
                 s\<lparr>sent := sent s @ [u],
                   out := out s @ [Line (''ERROR status code: '' @ str_int (status_code page))]\<rparr>)"
    using assms by (simp add: get_tables_def Let_def)
  have b: "status_code page = 200 \<Longrightarrow>
            get_tables E u s = (read_html E (content page), s\<lparr>sent := sent s @ [u]\<rparr>)"
    using assms by (simp add: get_tables_def Let_def)
  show ?thesis using a b main_get_tables_error[of first_name last_name n u E s] by metis
qed

lemma str_int_404: "str_int 404 = ''404''"
  by (simp add: str_int_def str_nat.simps digit_chars_def)

lemma create_wu_url: "create_player_url ''al'' ''wu'' 1 = Inr wu_url"
  by (simp add: create_player_url_def url_def wu_url_def zfill_def str_int_def str_nat.simps
        digit_chars_def)

theorem get_tables_status_witness:
  "requests_get (fixed_env 404 []) wu_url = Inr \<lparr>status_code = 404, content = ()\<rparr> \<and>
   (404::int) \<noteq> 200 \<and> create_player_url ''al'' ''wu'' 1 = Inr wu_url \<and>
   get_tables (fixed_env 404 []) wu_url io0
     = (Inl SystemExit, \<lparr>sent = [wu_url], out = [Line ''ERROR status code: 404'']\<rparr>) \<and>
   main (fixed_env 404 []) ''al'' ''wu'' ''avg'' False 1 io0
     = (Inl SystemExit, \<lparr>sent = [wu_url], out = [Line ''ERROR status code: 404'']\<rparr>) \<and>
   requests_get (fixed_env 200 [five_rows]) wu_url = Inr \<lparr>status_code = 200, content = ()\<rparr> \<and>
   get_tables (fixed_env 200 [five_rows]) wu_url io0
     = (Inr [five_rows], \<lparr>sent = [wu_url], out = []\<rparr>)"
proof -
  have r4: "requests_get (fixed_env 404 []) wu_url = Inr \<lparr>status_code = 404, content = ()\<rparr>"
    by (simp add: fixed_env_def)
  have r2: "requests_get (fixed_env 200 [five_rows]) wu_url
              = Inr \<lparr>status_code = 200, content = ()\<rparr>"
    by (simp add: fixed_env_def)
  note t4 = get_tables_status[OF r4, of io0 "''al''" "''wu''" 1 "''avg''" False]
  note t2 = get_tables_status[OF r2, of io0 "''al''" "''wu''" 1 "''avg''" False]
  have g4: "get_tables (fixed_env 404 []) wu_url io0
     = (Inl SystemExit, \<lparr>sent = [wu_url], out = [Line ''ERROR status code: 404'']\<rparr>)"
    using t4 by (simp add: io0_def str_int_404)
  have m4: "main (fixed_env 404 []) ''al'' ''wu'' ''avg'' False 1 io0
     = (Inl SystemExit, \<lparr>sent = [wu_url], out = [Line ''ERROR status code: 404'']\<rparr>)"
    using t4 create_wu_url by (simp add: io0_def str_int_404)
  have g2: "get_tables (fixed_env 200 [five_rows]) wu_url io0
     = (Inr [five_rows], \<lparr>sent = [wu_url], out = []\<rparr>)"
    using t2 by (simp add: io0_def fixed_env_def)
  show ?thesis using r4 r2 g4 m4 g2 create_wu_url by simp
qed

section \<open>Layout mismatch\<close>

text \<open>
  C9.  When the page was fetched with status 200 and \<^verbatim>\<open>pd.read_html\<close> returned a list
  that is no longer than the selection index, the table selector raises IndexError,
  \<^verbatim>\<open>get_player_stats\<close> and \<^verbatim>\<open>main\<close> end with that IndexError, and nothing has been
  written to the terminal: the output is what it was before the run.
\<close>

theorem select_table_out_of_range:
  assumes "create_player_url first_name last_name n = Inr u"
    and "requests_get E u = Inr page" and "status_code page = 200"
    and "read_html E (content page) = Inr tables"
    and "(stats, base) \<in> {(''avg'', 0), (''tot'', 2), (''adv'', 4)}"
    and "length tables \<le> base + (if playoffs then 1 else 0)"
  shows "select_table tables stats playoffs = Inl IndexError \<and>
         get_player_stats E first_name last_name stats playoffs n s
           = (Inl IndexError, s\<lparr>sent := sent s @ [u]\<rparr>) \<and>
         main E first_name last_name stats playoffs n s
           = (Inl IndexError, s\<lparr>sent := sent s @ [u]\<rparr>) \<and>
         out (snd (main E first_name last_name stats playoffs n s)) = out s"
proof -
  have sel: "select_table tables stats playoffs = Inl IndexError"
    using assms(6) select_table_base[OF table_map_lookup[OF assms(5)], of tables playoffs]
    by simp
  have gt: "get_tables E u s = (Inr tables, s\<lparr>sent := sent s @ [u]\<rparr>)"
    using assms(2,3,4) by (simp add: get_tables_def Let_def)
  have gp: "get_player_stats E first_name last_name stats playoffs n s
           = (Inl IndexError, s\<lparr>sent := sent s @ [u]\<rparr>)"
    using assms(1) gt sel by (simp add: get_player_stats_def)
  then have mn: "main E first_name last_name stats playoffs n s
           = (Inl IndexError, s\<lparr>sent := sent s @ [u]\<rparr>)"
    by (simp add: main_def)
  show ?thesis using sel gp mn by simp
qed

theorem select_table_out_of_range_witness:
  "create_player_url ''al'' ''wu'' 1 = Inr wu_url \<and>
   requests_get (fixed_env 200 [five_rows]) wu_url = Inr \<lparr>status_code = 200, content = ()\<rparr> \<and>
   read_html (fixed_env 200 [five_rows]) () = Inr [five_rows] \<and>
   length [five_rows :: int dataframe] \<le> 0 + (if True then 1 else 0) \<and>
   select_table [five_rows :: int dataframe] ''avg'' True = Inl IndexError \<and>
   main (fixed_env 200 [five_rows]) ''al'' ''wu'' ''avg'' True 1 io0
     = (Inl IndexError, \<lparr>sent = [wu_url], out = []\<rparr>)"
proof -
  have r: "requests_get (fixed_env 200 [five_rows]) wu_url
              = Inr \<lparr>status_code = 200, content = ()\<rparr>"
    by (simp add: fixed_env_def)
  have c: "status_code \<lparr>status_code = 200, content = ()\<rparr> = 200" by simp
  have h: "read_html (fixed_env 200 [five_rows]) (content \<lparr>status_code = 200, content = ()\<rparr>)
             = Inr [five_rows]"
    by (simp add: fixed_env_def)
  have k: "(''avg'', 0::nat) \<in> {(''avg'', 0), (''tot'', 2), (''adv'', 4)}" by simp
  have l: "length [five_rows :: int dataframe] \<le> 0 + (if True then 1 else 0)" by simp
  note t = select_table_out_of_range[OF create_wu_url r c h k l, of io0]
  have "main (fixed_env 200 [five_rows]) ''al'' ''wu'' ''avg'' True 1 io0
     = (Inl IndexError, \<lparr>sent = [wu_url], out = []\<rparr>)"
    using t by (simp add: io0_def)
  then show ?thesis using t r h l create_wu_url by simp
qed

section \<open>Column filter: what it keeps\<close>

lemma columns_drop_step:
  "columns (if col \<in> set (columns df) then drop_column col df else df)
     = filter (\<lambda>c. c \<noteq> col) (columns df)"
proof (cases "col \<in> set (columns df)")
  case True
  then show ?thesis by (simp add: drop_column_def)
next
  case False
  then have "filter (\<lambda>c. c \<noteq> col) (columns df) = columns df"
    by (simp add: filter_id_conv) blast
  with False show ?thesis by simp
qed

lemma columns_drop_loop:
  "columns (drop_loop ds df) = filter (\<lambda>c. c \<notin> set ds) (columns df)"
proof (induction ds arbitrary: df)
  case Nil
  show ?case by simp
next
  case (Cons col ds)
  have "columns (drop_loop (col # ds) df)
          = filter (\<lambda>c. c \<notin> set ds) (filter (\<lambda>c. c \<noteq> col) (columns df))"
    by (simp only: drop_loop.simps Cons.IH columns_drop_step)
  also have "\<dots> = filter (\<lambda>c. c \<notin> set (col # ds)) (columns df)"
    by (simp add: conj_commute)
  finally show ?case .
qed

lemma labels_drop_loop: "map fst (rows (drop_loop ds df)) = map fst (rows df)"
proof (induction ds arbitrary: df)
  case Nil
  show ?case by simp
next
  case (Cons col ds)
  have "map fst (rows (if col \<in> set (columns df) then drop_column col df else df))
          = map fst (rows df)"
    by (simp add: drop_column_def comp_def)
  then show ?case by (simp only: drop_loop.simps Cons.IH)
qed

lemma drop_loop_noop: "\<forall>c \<in> set ds. c \<notin> set (columns df) \<Longrightarrow> drop_loop ds df = df"
  by (induction ds) simp_all

text \<open>One row of cells under a selection of the columns.\<close>

lemma zip_filter_fst:
  "length xs = length ys \<Longrightarrow>
   zip (filter P xs) (map snd (filter (\<lambda>p. P (fst p)) (zip xs ys)))
     = filter (\<lambda>p. P (fst p)) (zip xs ys)"
  by (induction xs ys rule: list_induct2) simp_all

lemma length_filter_zip:
  "length xs = length ys \<Longrightarrow>
   length (filter (\<lambda>p. P (fst p)) (zip xs ys)) = length (filter P xs)"
  by (induction xs ys rule: list_induct2) simp_all

lemma nth_kept_cell:
  "length xs = length ys \<Longrightarrow> c \<in> set xs \<Longrightarrow> P c \<Longrightarrow>
   map snd (filter (\<lambda>p. P (fst p)) (zip xs ys)) ! get_loc c (filter P xs) = ys ! get_loc c xs"
  by (induction xs ys rule: list_induct2) auto

lemma rect_drop_step:
  assumes "\<forall>r \<in> set (rows df). length (snd r) = length (columns df)"
  shows "\<forall>r \<in> set (rows (if col \<in> set (columns df) then drop_column col df else df)).
           length (snd r) = length (columns (if col \<in> set (columns df) then drop_column col df else df))"
proof (cases "col \<in> set (columns df)")
  case True
  have "\<And>r. r \<in> set (rows df) \<Longrightarrow>
          length (filter (\<lambda>p. fst p \<noteq> col) (zip (columns df) (snd r)))
            = length (filter (\<lambda>c. c \<noteq> col) (columns df))"
  proof -
    fix r assume "r \<in> set (rows df)"
    then have "length (columns df) = length (snd r)" using assms by simp
    then show "length (filter (\<lambda>p. fst p \<noteq> col) (zip (columns df) (snd r)))
            = length (filter (\<lambda>c. c \<noteq> col) (columns df))"
      by (rule length_filter_zip)
  qed
  with True show ?thesis by (simp add: drop_column_def)
next
  case False
  with assms show ?thesis by simp
qed

lemma rows_drop_step:
  assumes "\<forall>r \<in> set (rows df). length (snd r) = length (columns df)"
  shows "rows (if col \<in> set (columns df) then drop_column col df else df)
           = map (\<lambda>r. (fst r, map snd (filter (\<lambda>p. fst p \<noteq> col) (zip (columns df) (snd r)))))
               (rows df)"
proof (cases "col \<in> set (columns df)")
  case True
  then show ?thesis by (simp add: drop_column_def)
next
  case False
  have "\<And>r. r \<in> set (rows df) \<Longrightarrow>
          map snd (filter (\<lambda>p. fst p \<noteq> col) (zip (columns df) (snd r))) = snd r"
  proof -
    fix r assume r: "r \<in> set (rows df)"
    then have len: "length (snd r) = length (columns df)" using assms by blast
    have "\<forall>p \<in> set (zip (columns df) (snd r)). fst p \<noteq> col"
      using False by (auto dest: set_zip_leftD)
    then have "filter (\<lambda>p. fst p \<noteq> col) (zip (columns df) (snd r)) = zip (columns df) (snd r)"
      by (simp add: filter_id_conv)
    then show "map snd (filter (\<lambda>p. fst p \<noteq> col) (zip (columns df) (snd r))) = snd r"
      using len by simp
  qed
  then have "map (\<lambda>r. (fst r, map snd (filter (\<lambda>p. fst p \<noteq> col) (zip (columns df) (snd r)))))
               (rows df) = map (\<lambda>r. r) (rows df)"
    by (intro map_cong) simp_all
  with False show ?thesis by simp
qed

lemma rows_drop_loop:
  assumes "\<forall>r \<in> set (rows df). length (snd r) = length (columns df)"
  shows "rows (drop_loop ds df)
           = map (\<lambda>r. (fst r, map snd (filter (\<lambda>p. fst p \<notin> set ds) (zip (columns df) (snd r)))))
               (rows df)"
  using assms
proof (induction ds arbitrary: df)
  case Nil
  then have "\<And>r. r \<in> set (rows df) \<Longrightarrow> map snd (zip (columns df) (snd r)) = snd r"
    by simp
  then have "map (\<lambda>r. (fst r, map snd (zip (columns df) (snd r)))) (rows df)
               = map (\<lambda>r. r) (rows df)"
    by (intro map_cong) simp_all
  then show ?case by simp
next
  case (Cons col ds)
  let ?d = "if col \<in> set (columns df) then drop_column col df else df"
  have rect: "\<forall>r \<in> set (rows ?d). length (snd r) = length (columns ?d)"
    using Cons.prems by (rule rect_drop_step)
  have "rows (drop_loop (col # ds) df)
          = map (\<lambda>r. (fst r, map snd (filter (\<lambda>p. fst p \<notin> set ds) (zip (columns ?d) (snd r)))))
              (rows ?d)"
    using Cons.IH[OF rect] by simp
  also have "\<dots> = map (\<lambda>r. (fst r, map snd (filter (\<lambda>p. fst p \<notin> set ds)
                        (zip (filter (\<lambda>c. c \<noteq> col) (columns df)) (snd r)))))
                     (map (\<lambda>r. (fst r, map snd (filter (\<lambda>p. fst p \<noteq> col) (zip (columns df) (snd r)))))
                        (rows df))"
    by (simp only: columns_drop_step rows_drop_step[OF Cons.prems])
  also have "\<dots> = map (\<lambda>r. (fst r, map snd (filter (\<lambda>p. fst p \<notin> set (col # ds))
                        (zip (columns df) (snd r))))) (rows df)"
  proof -
    have "\<And>r. r \<in> set (rows df) \<Longrightarrow>
            filter (\<lambda>p. fst p \<notin> set ds)
              (zip (filter (\<lambda>c. c \<noteq> col) (columns df))
                 (map snd (filter (\<lambda>p. fst p \<noteq> col) (zip (columns df) (snd r)))))
            = filter (\<lambda>p. fst p \<notin> set (col # ds)) (zip (columns df) (snd r))"
    proof -
      fix r assume "r \<in> set (rows df)"
      then have len: "length (columns df) = length (snd r)" using Cons.prems by simp
      show "filter (\<lambda>p. fst p \<notin> set ds)
              (zip (filter (\<lambda>c. c \<noteq> col) (columns df))
                 (map snd (filter (\<lambda>p. fst p \<noteq> col) (zip (columns df) (snd r)))))
            = filter (\<lambda>p. fst p \<notin> set (col # ds)) (zip (columns df) (snd r))"
        by (simp add: zip_filter_fst[OF len, of "\<lambda>c. c \<noteq> col"] conj_commute)
    qed
    then show ?thesis by (simp add: comp_def)
  qed
  finally show ?case .
qed

lemma remove_stats_kept:
  "c \<in> set (columns df) \<Longrightarrow>
   (c \<notin> set (drop_cols @ filter (\<lambda>col. contains col ''Unnamed:'') (columns df))) = (\<not> dropped c)"
  by (auto simp: dropped_def)

lemma columns_remove_stats:
  "columns (remove_stats df) = filter (\<lambda>c. \<not> dropped c) (columns df)"
  unfolding remove_stats_def columns_drop_loop
  by (rule filter_cong) (simp_all only: remove_stats_kept)

lemma rows_remove_stats:
  assumes "\<forall>r \<in> set (rows df). length (snd r) = length (columns df)"
  shows "rows (remove_stats df)
           = map (\<lambda>r. (fst r, map snd (filter (\<lambda>p. \<not> dropped (fst p)) (zip (columns df) (snd r)))))
               (rows df)"
proof -
  let ?ds = "drop_cols @ filter (\<lambda>col. contains col ''Unnamed:'') (columns df)"
  have eq: "\<And>r. filter (\<lambda>p. fst p \<notin> set ?ds) (zip (columns df) (snd r))
            = filter (\<lambda>p. \<not> dropped (fst p)) (zip (columns df) (snd r))"
    by (rule filter_cong) (auto simp: dropped_def dest: set_zip_leftD)
  have "rows (remove_stats df)
          = map (\<lambda>r. (fst r, map snd (filter (\<lambda>p. fst p \<notin> set ?ds) (zip (columns df) (snd r)))))
              (rows df)"
    unfolding remove_stats_def using assms by (rule rows_drop_loop)
  then show ?thesis by (simp only: eq)
qed

lemma wf_remove_stats: "wf_df df \<Longrightarrow> wf_df (remove_stats df)"
proof -
  assume wf: "wf_df df"
  then have rect: "\<forall>r \<in> set (rows df). length (snd r) = length (columns df)"
    by (simp add: wf_df_def list_all_iff)
  have "\<And>r. r \<in> set (rows df) \<Longrightarrow>
          length (filter (\<lambda>p. \<not> dropped (fst p)) (zip (columns df) (snd r)))
            = length (filter (\<lambda>c. \<not> dropped c) (columns df))"
  proof -
    fix r assume "r \<in> set (rows df)"
    then have "length (columns df) = length (snd r)" using rect by simp
    then show "length (filter (\<lambda>p. \<not> dropped (fst p)) (zip (columns df) (snd r)))
            = length (filter (\<lambda>c. \<not> dropped c) (columns df))"
      by (rule length_filter_zip)
  qed
  then show ?thesis using wf
    by (simp add: wf_df_def list_all_iff columns_remove_stats rows_remove_stats[OF rect])
qed

text \<open>
  C7 (as amended).  The column filter keeps the columns it is not after, in their order.
  On a well-formed table (distinct labels, one cell per column in every row) it keeps
  every row, with its label and in its place, and the cell of every row under every kept
  column is the cell the input had there; the result is well-formed again.  The table is
  returned as it is when it has none of the six fixed columns and no label that contains
  \<^verbatim>\<open>Unnamed:\<close> anywhere in it: the script tests \<^verbatim>\<open>'Unnamed:' in col\<close>, which is
  containment, not a prefix test.
\<close>

theorem remove_stats_frame:
  "columns (remove_stats df) = filter (\<lambda>c. \<not> dropped c) (columns df) \<and>
   map fst (rows (remove_stats df)) = map fst (rows df) \<and>
   (wf_df df \<longrightarrow>
      wf_df (remove_stats df) \<and>
      (\<forall>i < length (rows df). \<forall>c \<in> set (columns (remove_stats df)).
         snd (rows (remove_stats df) ! i) ! get_loc c (columns (remove_stats df))
           = snd (rows df ! i) ! get_loc c (columns df))) \<and>
   ((\<forall>c \<in> set (columns df). \<not> dropped c) \<longrightarrow> remove_stats df = df)"
proof -
  have lab: "map fst (rows (remove_stats df)) = map fst (rows df)"
    by (simp add: remove_stats_def labels_drop_loop)
  have cell: "snd (rows (remove_stats df) ! i) ! get_loc c (columns (remove_stats df))
                = snd (rows df ! i) ! get_loc c (columns df)"
    if wf: "wf_df df" and i: "i < length (rows df)" and c: "c \<in> set (columns (remove_stats df))"
    for i c
  proof -
    have rect: "\<forall>r \<in> set (rows df). length (snd r) = length (columns df)"
      using wf by (simp add: wf_df_def list_all_iff)
    have len: "length (columns df) = length (snd (rows df ! i))"
      using rect i by simp
    have cin: "c \<in> set (columns df)" and keep: "\<not> dropped c"
      using c by (simp_all add: columns_remove_stats)
    have "snd (rows (remove_stats df) ! i)
            = map snd (filter (\<lambda>p. \<not> dropped (fst p)) (zip (columns df) (snd (rows df ! i))))"
      using i by (simp add: rows_remove_stats[OF rect])
    then show ?thesis
      using nth_kept_cell[OF len cin, of "\<lambda>c. \<not> dropped c"] keep
      by (simp add: columns_remove_stats)
  qed
  have noop: "remove_stats df = df" if "\<forall>c \<in> set (columns df). \<not> dropped c"
  proof -
    have "filter (\<lambda>col. contains col ''Unnamed:'') (columns df) = []"
      using that by (auto simp: filter_empty_conv dropped_def)
    moreover have "\<forall>c \<in> set drop_cols. c \<notin> set (columns df)"
      using that by (auto simp: dropped_def)
    ultimately show ?thesis by (simp add: remove_stats_def drop_loop_noop)
  qed
  show ?thesis using columns_remove_stats lab wf_remove_stats cell noop by blast
qed

lemma dropped_simps:
  "\<not> dropped ''Season''" "dropped ''Lg''" "dropped ''FG''" "\<not> dropped ''FGA''"
  "dropped ''2P''" "\<not> dropped ''2PA''" "dropped ''Unnamed: 12''"
  by (simp_all add: dropped_def drop_cols_def)

theorem remove_stats_frame_witness:
  "wf_df seven_columns \<and>
   remove_stats seven_columns =
     \<lparr>columns = [''Season'', ''FGA'', ''2PA''],
      rows = [(0, [Str ''2020-21'', Num 15, Num 9]), (1, [Str ''Career'', Num 14, Num 8])]\<rparr> \<and>
   snd (rows (remove_stats seven_columns) ! 1) ! get_loc ''2PA'' (columns (remove_stats seven_columns))
     = snd (rows seven_columns ! 1) ! get_loc ''2PA'' (columns seven_columns) \<and>
   columns plain_columns = [''Season'', ''FGA''] \<and>
   \<not> dropped ''Season'' \<and> \<not> dropped ''FGA'' \<and>
   remove_stats plain_columns = plain_columns"
proof -
  have wf: "wf_df seven_columns" by (simp add: wf_df_def seven_columns_def)
  have ev: "remove_stats seven_columns =
     \<lparr>columns = [''Season'', ''FGA'', ''2PA''],
      rows = [(0, [Str ''2020-21'', Num 15, Num 9]), (1, [Str ''Career'', Num 14, Num 8])]\<rparr>"
    by (simp add: remove_stats_def seven_columns_def drop_cols_def drop_column_def)
  have i: "1 < length (rows seven_columns)" by (simp add: seven_columns_def)
  have c: "''2PA'' \<in> set (columns (remove_stats seven_columns))" by (simp add: ev)
  have p: "\<forall>c \<in> set (columns plain_columns). \<not> dropped c"
    by (simp add: plain_columns_def dropped_def drop_cols_def)
  from remove_stats_frame[of seven_columns] wf i c
  have cell: "snd (rows (remove_stats seven_columns) ! 1) ! get_loc ''2PA'' (columns (remove_stats seven_columns))
     = snd (rows seven_columns ! 1) ! get_loc ''2PA'' (columns seven_columns)"
    by blast
  from remove_stats_frame[of plain_columns] p
  have "remove_stats plain_columns = plain_columns" by blast
  moreover have "columns plain_columns = [''Season'', ''FGA'']"
    by (simp add: plain_columns_def)
  moreover have "\<not> dropped ''Season''" and "\<not> dropped ''FGA''"
    by (simp_all add: dropped_def drop_cols_def)
  ultimately show ?thesis using wf ev cell by blast
qed

text \<open>
  C7 as stated fails: the table \<open>infix_columns\<close> has none of the columns the
  specification names (no label of the fixed list, no label that begins with
  \<^verbatim>\<open>Unnamed:\<close>), and the column filter still removes its second column.
\<close>

theorem remove_stats_noop_counterexample:
  "\<not> spec_target ''Season'' \<and> \<not> spec_target ''xUnnamed: 3y'' \<and> \<not> spec_target ''PTS'' \<and>
   columns infix_columns = [''Season'', ''xUnnamed: 3y'', ''PTS''] \<and>
   remove_stats infix_columns =
     \<lparr>columns = [''Season'', ''PTS''],
      rows = [(0, [Str ''2020-21'', Num 25]), (1, [Str ''Career'', Num 24])]\<rparr> \<and>
   remove_stats infix_columns \<noteq> infix_columns"
  by (simp add: spec_target_def remove_stats_def infix_columns_def drop_cols_def drop_column_def)

text \<open>Every column the specification names is one the script is after.\<close>

lemma take_contains: "take (length pat) s = pat \<Longrightarrow> contains s pat"
  by (cases s) auto

lemma spec_target_dropped: "spec_target c \<Longrightarrow> dropped c"
proof -
  assume "spec_target c"
  then consider "c \<in> set drop_cols" | "take 8 c = ''Unnamed:''"
    by (auto simp: spec_target_def)
  then show ?thesis
  proof cases
    case 1
    then show ?thesis by (simp add: dropped_def)
  next
    case 2
    have "length ''Unnamed:'' = 8" by simp
    with 2 have "take (length ''Unnamed:'') c = ''Unnamed:''" by (simp only:)
    then have "contains c ''Unnamed:''" by (rule take_contains)
    then show ?thesis by (simp add: dropped_def)
  qed
qed

text \<open>
  C4.  On a table with the columns Season, Lg, FG, FGA, 2P, 2PA, Unnamed: 12, whatever its
  rows, the column filter leaves the columns Season, FGA, 2PA, in this order.
\<close>

theorem remove_stats_seven_columns:
  "columns (remove_stats
      \<lparr>columns = [''Season'', ''Lg'', ''FG'', ''FGA'', ''2P'', ''2PA'', ''Unnamed: 12''],
       rows = rs\<rparr>) = [''Season'', ''FGA'', ''2PA'']"
  by (simp add: columns_remove_stats dropped_simps)

text \<open>
  The older copy of the script keeps 2P and the placeholder column on the same table.
\<close>

lemma remove_stats_legacy_seven_columns:
  "columns (remove_stats_legacy
      \<lparr>columns = [''Season'', ''Lg'', ''FG'', ''FGA'', ''2P'', ''2PA'', ''Unnamed: 12''],
       rows = rs\<rparr>) = [''Season'', ''FGA'', ''2P'', ''2PA'', ''Unnamed: 12'']"
  unfolding remove_stats_legacy_def columns_drop_loop
  by (simp add: drop_cols_legacy_def)

section \<open>Renderer: banding\<close>

lemma add_rows_styles:
  "\<forall>row \<in> set rws. row \<noteq> [] \<Longrightarrow>
   add_rows i rws t
     = Inr (t\<lparr>body := body t @ map (\<lambda>p. (snd p, row_style (fst p) (snd p)))
                                  (zip [i ..< i + length rws] rws)\<rparr>)"
proof (induction rws arbitrary: i t)
  case Nil
  show ?case by simp
next
  case (Cons row rws)
  from Cons.prems obtain c cs where row: "row = c # cs" by (cases row) auto
  have rest: "\<forall>r \<in> set rws. r \<noteq> []" using Cons.prems by simp
  have upt: "[i ..< i + length (row # rws)] = i # [Suc i ..< Suc i + length rws]"
    by (subst upt_conv_Cons) simp_all
  have "add_rows i (row # rws) t = add_rows (Suc i) rws (add_row row (row_style i row) t)"
    by (simp add: row row_style_def)
  also have "\<dots> = Inr ((add_row row (row_style i row) t)
      \<lparr>body := body (add_row row (row_style i row) t)
                 @ map (\<lambda>p. (snd p, row_style (fst p) (snd p)))
                     (zip [Suc i ..< Suc i + length rws] rws)\<rparr>)"
    by (rule Cons.IH[OF rest])
  also have "\<dots> = Inr (t\<lparr>body := body t @ map (\<lambda>p. (snd p, row_style (fst p) (snd p)))
                                  (zip [i ..< i + length (row # rws)] (row # rws))\<rparr>)"
    unfolding upt by (simp add: add_row_def)
  finally show ?case .
qed

text \<open>
  C5.  For every well-formed table with at least one column (every cleaned table is one:
  the row filter needs the column Season and the column filter keeps it), \<^verbatim>\<open>pprint_df\<close>
  prints one table whose rows are the rows of the input, each cell turned into text, in
  order; the row at position \<open>i\<close> has the style \<^verbatim>\<open>steel_blue1\<close> when its first cell is
  the text "Career", whatever \<open>i\<close> is, and otherwise \<^verbatim>\<open>bright_cyan\<close> when \<open>i\<close> is even and
  \<^verbatim>\<open>light_cyan1\<close> when \<open>i\<close> is odd.
\<close>

theorem pprint_df_banding:
  assumes "wf_df df" and "columns df \<noteq> []"
  shows "\<exists>t. pprint_df nstr df first_name last_name stats playoffs s
               = (Inr (), s\<lparr>out := out s @ [Rendered t]\<rparr>) \<and>
             header t = columns df \<and>
             length (body t) = length (rows df) \<and>
             (\<forall>i < length (rows df).
                fst (body t ! i) = map (py_str nstr) (snd (rows df ! i)) \<and>
                snd (body t ! i) =
                  (if hd (fst (body t ! i)) = ''Career'' then ''steel_blue1''
                   else if even i then ''bright_cyan'' else ''light_cyan1''))"
proof -
  let ?rws = "map (\<lambda>r. map (py_str nstr) (snd r)) (rows df)"
  let ?tb = "\<lparr>title = pprint_title first_name last_name stats playoffs,
              header = columns df, body = []\<rparr>"
  let ?tr = "?tb\<lparr>body := body ?tb @ map (\<lambda>p. (snd p, row_style (fst p) (snd p)))
                                       (zip [0 ..< 0 + length ?rws] ?rws)\<rparr>"
  have ne: "\<forall>row \<in> set ?rws. row \<noteq> []"
    using assms by (auto simp: wf_df_def list_all_iff)
  have run: "add_rows 0 ?rws ?tb = Inr ?tr" using ne by (rule add_rows_styles)
  have p: "pprint_df nstr df first_name last_name stats playoffs s
             = (Inr (), s\<lparr>out := out s @ [Rendered ?tr]\<rparr>)"
    unfolding pprint_df_def Let_def run by simp
  have h: "header ?tr = columns df" by simp
  have l: "length (body ?tr) = length (rows df)" by simp
  have b: "fst (body ?tr ! i) = map (py_str nstr) (snd (rows df ! i)) \<and>
           snd (body ?tr ! i) =
             (if hd (fst (body ?tr ! i)) = ''Career'' then ''steel_blue1''
              else if even i then ''bright_cyan'' else ''light_cyan1'')"
    if "i < length (rows df)" for i
    using that by (simp add: row_style_def even_iff_mod_2_eq_zero)
  show ?thesis using p h l b by blast
qed

theorem pprint_df_banding_witness:
  "wf_df four_rows \<and> columns four_rows \<noteq> [] \<and>
   pprint_df str_int four_rows ''al'' ''wu'' ''avg'' False io0
     = (Inr (),
        \<lparr>sent = [],
         out = [Rendered
                 \<lparr>title = ''Al Wu Regular Season avg'',
                  header = [''Season'', ''FGA''],
                  body = [([''2018-19'', ''11''], ''bright_cyan''),
                          ([''2019-20'', ''12''], ''light_cyan1''),
                          ([''2020-21'', ''15''], ''bright_cyan''),
                          ([''Career'', ''13''], ''steel_blue1'')]\<rparr>]\<rparr>)"
proof -
  let ?T = "\<lparr>title = ''Al Wu Regular Season avg'',
             header = [''Season'', ''FGA''],
             body = [([''2018-19'', ''11''], ''bright_cyan''),
                     ([''2019-20'', ''12''], ''light_cyan1''),
                     ([''2020-21'', ''15''], ''bright_cyan''),
                     ([''Career'', ''13''], ''steel_blue1'')]\<rparr>"
  have wf: "wf_df four_rows" by (simp add: wf_df_def four_rows_def)
  have ne: "columns four_rows \<noteq> []" by (simp add: four_rows_def)
  have n: "str_int 11 = ''11''" "str_int 12 = ''12''" "str_int 15 = ''15''" "str_int 13 = ''13''"
    by (simp_all add: str_int_def str_nat.simps digit_chars_def)
  have ti: "pprint_title ''al'' ''wu'' ''avg'' False = ''Al Wu Regular Season avg''"
    by (simp add: pprint_title_def capitalize_def upper_char_def lower_char_def
          upper_chars_def lower_chars_def)
  have ev: "pprint_df str_int four_rows ''al'' ''wu'' ''avg'' False io0
              = (Inr (), \<lparr>sent = [], out = [Rendered ?T]\<rparr>)"
    by (simp add: pprint_df_def ti four_rows_def n add_row_def io0_def)
  from pprint_df_banding[OF wf ne, of str_int "''al''" "''wu''" "''avg''" False io0]
  obtain t where
    p: "pprint_df str_int four_rows ''al'' ''wu'' ''avg'' False io0
          = (Inr (), io0\<lparr>out := out io0 @ [Rendered t]\<rparr>)"
    by blast
  from p ev have "t = ?T" by (simp add: io0_def)
  with p have "pprint_df str_int four_rows ''al'' ''wu'' ''avg'' False io0
              = (Inr (), \<lparr>sent = [], out = [Rendered ?T]\<rparr>)"
    by (simp add: io0_def)
  with wf ne show ?thesis by blast
qed

text \<open>The older copy of the script gives every row the style \<^verbatim>\<open>bright_cyan\<close>.\<close>

lemma pprint_df_legacy_four_rows:
  "\<exists>t. pprint_df_legacy str_int four_rows ''al'' ''wu'' ''avg'' False io0
          = (Inr (), \<lparr>sent = [], out = [Rendered t]\<rparr>) \<and>
        map snd (body t) = [''bright_cyan'', ''bright_cyan'', ''bright_cyan'', ''bright_cyan'']"
  by (simp add: pprint_df_legacy_def four_rows_def add_row_def io0_def)

text \<open>Every table that \<^verbatim>\<open>get_player_stats\<close> cleaned meets the hypotheses of C5.\<close>

lemma wf_drop_where: "wf_df df \<Longrightarrow> wf_df (drop_where Q df)"
  by (simp add: wf_df_def list_all_iff rows_drop_where)

lemma cleaned_table:
  assumes "wf_df df" and "remove_rows nstr df = Inr df1"
  shows "wf_df (remove_stats df1) \<and> ''Season'' \<in> set (columns (remove_stats df1))"
proof -
  have lg: "''Lg'' \<in> set (columns df)"
    using assms(2) by (auto simp: remove_rows_def getitem_def split: if_splits)
  have se: "''Season'' \<in> set (columns df)"
    using assms(2) lg
    by (auto simp: remove_rows_def getitem_def drop_labels_def Let_def split: if_splits)
  have "df1 = drop_where (season_na (columns df))
                 (drop_where (has_season nstr (columns df))
                   (drop_where (not_nba (columns df)) df))"
    using remove_rows_eq[OF lg se, of nstr] assms(2) by simp
  then have wf1: "wf_df df1" and c1: "columns df1 = columns df"
    using assms(1) by (simp_all add: wf_drop_where)
  have "\<not> dropped ''Season''" by (simp add: dropped_def drop_cols_def)
  then have "''Season'' \<in> set (columns (remove_stats df1))"
    using se c1 by (simp add: columns_remove_stats)
  with wf1 show ?thesis by (simp add: wf_remove_stats)
qed

end
